theory Spec2Isabelle
  imports Main
begin

section \<open>Python values and built-in operations used by the codec\<close>

text \<open>
  The codec of \<^verbatim>\<open>src/bencode\<close> works on Python objects.  A byte string is a list of
  8-bit characters.  A text string (\<^verbatim>\<open>str\<close>) is kept as its UTF-8 encoding, so that
  \<^verbatim>\<open>s.encode()\<close> is the stored byte list.  \<^verbatim>\<open>bool\<close> is a constructor of its own
  because \<^verbatim>\<open>isinstance(True, int)\<close> holds in Python while \<^verbatim>\<open>f'{True}'\<close> is
  \<^verbatim>\<open>'True'\<close>.  A dictionary is the list of its items in insertion order.
  \<^verbatim>\<open>POther\<close> stands for an object of any other type (float, tuple, set, ...).

  Assumptions of the model: integers convert to and from decimal text without the
  interpreter's optional digit limit, and the interpreter's recursion limit is not
  reached.
\<close>

type_synonym bytes = "char list"

datatype pyval =
    PInt int
  | PBool bool
  | PBytes bytes
  | PStr bytes
  | PList "pyval list"
  | PDict "(pyval \<times> pyval) list"
  | PNone
  | POther

text \<open>
  Modelled from the spec: the module \<^verbatim>\<open>exceptions\<close> imported by both source files is
  not among the sources; the spec names four error kinds per direction and a generic
  encode error.  Each class the source raises is one constructor.  The last three
  constructors are Python's built-in exceptions that the source can raise without
  naming them.
\<close>

datatype error =
    DecodeIntegerError
  | DecodeStringError
  | DecodeListError
  | DecodeDictionaryError
  | EncodeIntegerError
  | EncodeStringError
  | EncodeListError
  | EncodeDictionaryError
  | EncodeError
  | IndexError
  | NameError
  | AttributeError

subsection \<open>Indexing, slicing and searching a byte string\<close>

text \<open>\<^verbatim>\<open>data[i]\<close>: a negative index counts from the end; out of range raises.\<close>

definition getitem :: "bytes \<Rightarrow> int \<Rightarrow> error + char" where
  "getitem data i =
     (let n = int (length data); j = (if i < 0 then n + i else i)
      in if 0 \<le> j \<and> j < n then Inr (data ! nat j) else Inl IndexError)"

text \<open>How a slice bound or a search start is brought into \<open>0..len\<close>.\<close>

definition clamp_index :: "nat \<Rightarrow> int \<Rightarrow> nat" where
  "clamp_index n i = (if i < 0 then nat (int n + i) else min n (nat i))"

text \<open>\<^verbatim>\<open>data[a:b]\<close>\<close>

definition slice :: "bytes \<Rightarrow> int \<Rightarrow> int \<Rightarrow> bytes" where
  "slice data a b =
     (let lo = clamp_index (length data) a; hi = clamp_index (length data) b
      in take (hi - lo) (drop lo data))"

fun index_of :: "char \<Rightarrow> bytes \<Rightarrow> nat option" where
  "index_of c [] = None"
| "index_of c (x # xs) = (if x = c then Some 0 else map_option Suc (index_of c xs))"

text \<open>\<^verbatim>\<open>data.find(c, start)\<close> for a one-byte needle: the lowest index from \<open>start\<close>, or -1.\<close>

definition find :: "bytes \<Rightarrow> char \<Rightarrow> int \<Rightarrow> int" where
  "find data c start =
     (let lo = clamp_index (length data) start
      in case index_of c (drop lo data) of None \<Rightarrow> - 1 | Some k \<Rightarrow> int (lo + k))"

subsection \<open>Decimal text\<close>

definition is_digit :: "char \<Rightarrow> bool" where
  "is_digit c = ((48::nat) \<le> of_char c \<and> of_char c \<le> (57::nat))"

definition is_space :: "char \<Rightarrow> bool" where
  "is_space c = (c \<in> {CHR 0x20, CHR 0x09, CHR 0x0A, CHR 0x0B, CHR 0x0C, CHR 0x0D})"

definition digit_char :: "nat \<Rightarrow> char" where
  "digit_char d = char_of (48 + d)"

definition digit_val :: "char \<Rightarrow> nat" where
  "digit_val c = of_char c - 48"

text \<open>\<^verbatim>\<open>str(n)\<close> for a natural number: no leading zero, \<open>0\<close> is one digit.\<close>

function str_nat :: "nat \<Rightarrow> bytes" where
  "str_nat n = (if n < 10 then [digit_char n] else str_nat (n div 10) @ [digit_char (n mod 10)])"
  by pat_completeness auto
termination
  by (relation "measure (\<lambda>n. n)") auto

declare str_nat.simps [simp del]

text \<open>\<^verbatim>\<open>str(n)\<close> and \<^verbatim>\<open>f'{n}'\<close> for an integer.\<close>

definition str_int :: "int \<Rightarrow> bytes" where
  "str_int n = (if n < 0 then CHR ''-'' # str_nat (nat (- n)) else str_nat (nat n))"

text \<open>
  The digit part that \<^verbatim>\<open>int()\<close> accepts in base ten: digits, with single underscores
  between digits only.
\<close>

fun valid_digits :: "bytes \<Rightarrow> bool" where
  "valid_digits [] = False"
| "valid_digits [c] = is_digit c"
| "valid_digits (c # d # cs) =
     (is_digit c \<and> (if d = CHR ''_'' then valid_digits cs else valid_digits (d # cs)))"

definition digits_value :: "bytes \<Rightarrow> nat" where
  "digits_value s = foldl (\<lambda>a c. 10 * a + digit_val c) 0 (filter is_digit s)"

text \<open>
  \<^verbatim>\<open>int(b)\<close> on a byte string: surrounding white space is dropped, one sign is allowed,
  leading zeros are allowed; \<open>None\<close> is \<^verbatim>\<open>ValueError\<close>.
\<close>

definition py_int :: "bytes \<Rightarrow> int option" where
  "py_int s =
     (let t = dropWhile is_space s;
          signed = (t \<noteq> [] \<and> (hd t = CHR ''-'' \<or> hd t = CHR ''+''));
          negative = (t \<noteq> [] \<and> hd t = CHR ''-'');
          u = (if signed then tl t else t);
          body = takeWhile (\<lambda>c. is_digit c \<or> c = CHR ''_'') u;
          rest = dropWhile (\<lambda>c. is_digit c \<or> c = CHR ''_'') u
      in if valid_digits body \<and> list_all is_space rest
         then Some (if negative then - int (digits_value body) else int (digits_value body))
         else None)"

subsection \<open>Type tests\<close>

fun isinstance_int :: "pyval \<Rightarrow> bool" where
  "isinstance_int (PInt n) = True"
| "isinstance_int (PBool b) = True"
| "isinstance_int v = False"

fun isinstance_str_bytes :: "pyval \<Rightarrow> bool" where
  "isinstance_str_bytes (PBytes b) = True"
| "isinstance_str_bytes (PStr s) = True"
| "isinstance_str_bytes v = False"

fun isinstance_list :: "pyval \<Rightarrow> bool" where
  "isinstance_list (PList xs) = True"
| "isinstance_list v = False"

fun isinstance_dict :: "pyval \<Rightarrow> bool" where
  "isinstance_dict (PDict kvs) = True"
| "isinstance_dict v = False"

text \<open>The bytes of a string-like value: \<^verbatim>\<open>data.encode()\<close> for text, \<open>data\<close> for bytes.\<close>

fun bytes_of :: "pyval \<Rightarrow> bytes" where
  "bytes_of (PBytes b) = b"
| "bytes_of (PStr s) = s"
| "bytes_of v = []"

text \<open>\<^verbatim>\<open>f'{data}'\<close> for a value that passed the integer test.\<close>

fun format_int :: "pyval \<Rightarrow> bytes" where
  "format_int (PInt n) = str_int n"
| "format_int (PBool b) = (if b then ''True'' else ''False'')"
| "format_int v = []"

section \<open>The encoder (\<^verbatim>\<open>src/bencode/encoder.py\<close>)\<close>

definition encode_integer :: "pyval \<Rightarrow> error + bytes" where
  "encode_integer data =
     (if \<not> isinstance_int data then Inl EncodeIntegerError
      else Inr (''i'' @ format_int data @ ''e''))"

definition encode_string :: "pyval \<Rightarrow> error + bytes" where
  "encode_string data =
     (if \<not> isinstance_str_bytes data then Inl EncodeStringError
      else let b = bytes_of data in Inr (str_nat (length b) @ '':'' @ b))"

text \<open>
  \<^verbatim>\<open>encode_list\<close> and \<^verbatim>\<open>encode_dictionary\<close> with their \<^verbatim>\<open>for\<close> loops; the second
  argument of a loop is \<^verbatim>\<open>result\<close>.  The list loop has no final \<^verbatim>\<open>else\<close>: an item
  of no tested type is passed over.  \<^verbatim>\<open>encode_dictionary\<close> raises
  \<^verbatim>\<open>EncodeListError\<close> for a non-dictionary, as the source does.
\<close>

function encode_list :: "pyval \<Rightarrow> error + bytes"
  and encode_list_loop :: "pyval list \<Rightarrow> bytes \<Rightarrow> error + bytes"
  and encode_dictionary :: "pyval \<Rightarrow> error + bytes"
  and encode_dictionary_loop :: "(pyval \<times> pyval) list \<Rightarrow> bytes \<Rightarrow> error + bytes"
where
  "encode_list data =
     (case data of
        PList items \<Rightarrow> encode_list_loop items ''l''
      | _ \<Rightarrow> Inl EncodeListError)"
| "encode_list_loop [] result = Inr (result @ ''e'')"
| "encode_list_loop (item # rest) result =
     (if isinstance_int item then
        (case encode_integer item of
           Inl err \<Rightarrow> Inl err
         | Inr integer \<Rightarrow> encode_list_loop rest (result @ integer))
      else if isinstance_str_bytes item then
        (case encode_string item of
           Inl err \<Rightarrow> Inl err
         | Inr string \<Rightarrow> encode_list_loop rest (result @ string))
      else if isinstance_list item then
        (case encode_list item of
           Inl err \<Rightarrow> Inl err
         | Inr lst \<Rightarrow> encode_list_loop rest (result @ lst))
      else if isinstance_dict item then
        (case encode_dictionary item of
           Inl err \<Rightarrow> Inl err
         | Inr dictionary \<Rightarrow> encode_list_loop rest (result @ dictionary))
      else encode_list_loop rest result)"
| "encode_dictionary data =
     (case data of
        PDict items \<Rightarrow> encode_dictionary_loop items ''d''
      | _ \<Rightarrow> Inl EncodeListError)"
| "encode_dictionary_loop [] result = Inr (result @ ''e'')"
| "encode_dictionary_loop ((key, val) # rest) result =
     (if \<not> isinstance_str_bytes key then Inl EncodeDictionaryError
      else (case encode_string key of
        Inl err \<Rightarrow> Inl err
      | Inr string \<Rightarrow>
          (let result = result @ string in
           if isinstance_str_bytes val then
             (case encode_string val of
                Inl err \<Rightarrow> Inl err
              | Inr string \<Rightarrow> encode_dictionary_loop rest (result @ string))
           else if isinstance_int val then
             (case encode_integer val of
                Inl err \<Rightarrow> Inl err
              | Inr integer \<Rightarrow> encode_dictionary_loop rest (result @ integer))
           else if isinstance_list val then
             (case encode_list val of
                Inl err \<Rightarrow> Inl err
              | Inr lst \<Rightarrow> encode_dictionary_loop rest (result @ lst))
           else if isinstance_dict val then
             (case encode_dictionary val of
                Inl err \<Rightarrow> Inl err
              | Inr dictionary \<Rightarrow> encode_dictionary_loop rest (result @ dictionary))
           else Inl EncodeDictionaryError)))"
  by pat_completeness auto
termination
  by (relation "measure (\<lambda>x. case x of
        Inl (Inl v) \<Rightarrow> 2 * size v
      | Inl (Inr (items, r)) \<Rightarrow> 2 * size_list size items + 1
      | Inr (Inl v) \<Rightarrow> 2 * size v
      | Inr (Inr (items, r)) \<Rightarrow> 2 * size_list (size_prod size size) items + 1)")
    auto

definition encode :: "pyval \<Rightarrow> error + bytes" where
  "encode data =
     (if isinstance_str_bytes data then encode_string data
      else if isinstance_int data then encode_integer data
      else if isinstance_list data then encode_list data
      else if isinstance_dict data then encode_dictionary data
      else Inl EncodeError)"

section \<open>The decoder (\<^verbatim>\<open>src/bencode/decoder.py\<close>)\<close>

text \<open>
  A routine raises or returns; the two loops of the source (\<^verbatim>\<open>while current_pos <
  len(data)\<close>) have no evident bound, so \<^verbatim>\<open>decode_list\<close>, \<^verbatim>\<open>decode_dictionary\<close> and
  \<^verbatim>\<open>decode\<close> take fuel: every call and every loop iteration uses one unit, and \<open>None\<close>
  says that the fuel ran out before the routine returned or raised.

  The type tests of the source raise a class by a name that the module never imports
  (\<^verbatim>\<open>raise DecodeIntegerError(...)\<close>), which is a \<^verbatim>\<open>NameError\<close>.
\<close>

definition decode_integer :: "pyval \<Rightarrow> int \<Rightarrow> error + (int \<times> int)" where
  "decode_integer data pos =
     (if \<not> isinstance_str_bytes data then Inl NameError
      else let data = bytes_of data in
        (case getitem data pos of
           Inl err \<Rightarrow> Inl err
         | Inr c \<Rightarrow>
             if c \<noteq> CHR ''i'' then Inl DecodeIntegerError
             else let end = find data (CHR ''e'') pos in
               if end = - 1 then Inl DecodeIntegerError
               else (case py_int (slice data (pos + 1) end) of
                       None \<Rightarrow> Inl DecodeIntegerError
                     | Some integer \<Rightarrow> Inr (integer, end))))"

definition decode_string :: "pyval \<Rightarrow> int \<Rightarrow> error + (bytes \<times> int)" where
  "decode_string data pos =
     (if \<not> isinstance_str_bytes data then Inl NameError
      else let data = bytes_of data; colon_index = find data (CHR '':'') pos in
        if colon_index = - 1 then Inl DecodeStringError
        else (case py_int (slice data pos colon_index) of
                None \<Rightarrow> Inl DecodeStringError
              | Some len \<Rightarrow>
                  let end = colon_index + 1 + len; string = slice data (colon_index + 1) end in
                  if int (length string) < len then Inl DecodeStringError
                  else Inr (string, end - 1)))"

text \<open>
  \<^verbatim>\<open>data = data.decode() if not isinstance(data, bytes) else data\<close> in
  \<^verbatim>\<open>decode_list\<close> and \<^verbatim>\<open>decode_dictionary\<close>: a text string has no \<^verbatim>\<open>decode\<close>.
\<close>

fun container_buffer :: "pyval \<Rightarrow> error + bytes" where
  "container_buffer (PBytes b) = Inr b"
| "container_buffer (PStr s) = Inl AttributeError"
| "container_buffer v = Inl NameError"

text \<open>\<^verbatim>\<open>result[key] = value\<close>: a present key keeps its place, a new key goes last.\<close>

fun setitem :: "(pyval \<times> pyval) list \<Rightarrow> pyval \<Rightarrow> pyval \<Rightarrow> (pyval \<times> pyval) list" where
  "setitem [] k v = [(k, v)]"
| "setitem ((k', v') # rest) k v =
     (if k' = k then (k', v) # rest else (k', v') # setitem rest k v)"

type_synonym 'a outcome = "(error + 'a) option"

function (sequential) decode_list :: "nat \<Rightarrow> pyval \<Rightarrow> int \<Rightarrow> (pyval list \<times> int) outcome"
  and decode_list_loop :: "nat \<Rightarrow> bytes \<Rightarrow> int \<Rightarrow> pyval list \<Rightarrow> (pyval list \<times> int) outcome"
  and decode_dictionary :: "nat \<Rightarrow> pyval \<Rightarrow> int \<Rightarrow> ((pyval \<times> pyval) list \<times> int) outcome"
  and decode_dictionary_loop ::
    "nat \<Rightarrow> bytes \<Rightarrow> int \<Rightarrow> (pyval \<times> pyval) list \<Rightarrow> ((pyval \<times> pyval) list \<times> int) outcome"
where
  "decode_list 0 data pos = None"
| "decode_list (Suc n) data pos =
     (case container_buffer data of
        Inl err \<Rightarrow> Some (Inl err)
      | Inr data \<Rightarrow>
          (case getitem data pos of
             Inl err \<Rightarrow> Some (Inl err)
           | Inr c \<Rightarrow>
               if c \<noteq> CHR ''l'' then Some (Inl DecodeListError)
               else decode_list_loop n data (pos + 1) []))"
| "decode_list_loop 0 data current_pos contents = None"
| "decode_list_loop (Suc n) data current_pos contents =
     (if \<not> current_pos < int (length data) then Some (Inl DecodeListError)
      else (case getitem data current_pos of
        Inl err \<Rightarrow> Some (Inl err)
      | Inr c \<Rightarrow>
          if c = CHR ''i'' then
            (case decode_integer (PBytes data) current_pos of
               Inl err \<Rightarrow> Some (Inl err)
             | Inr (integer, end) \<Rightarrow>
                 decode_list_loop n data (end + 1) (contents @ [PInt integer]))
          else if is_digit c then
            (case decode_string (PBytes data) current_pos of
               Inl err \<Rightarrow> Some (Inl err)
             | Inr (string, end) \<Rightarrow>
                 decode_list_loop n data (end + 1) (contents @ [PBytes string]))
          else if c = CHR ''l'' then
            (case decode_list n (PBytes data) current_pos of
               None \<Rightarrow> None
             | Some (Inl err) \<Rightarrow> Some (Inl err)
             | Some (Inr (lst, end)) \<Rightarrow>
                 decode_list_loop n data (end + 1) (contents @ [PList lst]))
          else if c = CHR ''d'' then
            (case decode_dictionary n (PBytes data) current_pos of
               None \<Rightarrow> None
             | Some (Inl err) \<Rightarrow> Some (Inl err)
             | Some (Inr (dictionary, end)) \<Rightarrow>
                 decode_list_loop n data (end + 1) (contents @ [PDict dictionary]))
          else if c = CHR ''e'' then Some (Inr (contents, current_pos))
          else Some (Inl DecodeListError)))"
| "decode_dictionary 0 data pos = None"
| "decode_dictionary (Suc n) data pos =
     (case container_buffer data of
        Inl err \<Rightarrow> Some (Inl err)
      | Inr data \<Rightarrow>
          (case getitem data pos of
             Inl err \<Rightarrow> Some (Inl err)
           | Inr c \<Rightarrow>
               if c \<noteq> CHR ''d'' then Some (Inl DecodeListError)
               else decode_dictionary_loop n data (pos + 1) []))"
| "decode_dictionary_loop 0 data current_pos result = None"
| "decode_dictionary_loop (Suc n) data current_pos result =
     (if \<not> current_pos < int (length data) then Some (Inl DecodeDictionaryError)
      else (case getitem data current_pos of
        Inl err \<Rightarrow> Some (Inl err)
      | Inr c \<Rightarrow>
          if c = CHR ''e'' then Some (Inr (result, current_pos))
          else (case decode_string (PBytes data) current_pos of
            Inl err \<Rightarrow> Some (Inl err)
          | Inr (key, end) \<Rightarrow>
              (let current_pos = end + 1 in
               case getitem data current_pos of
                 Inl err \<Rightarrow> Some (Inl err)
               | Inr c \<Rightarrow>
                   if c = CHR ''i'' then
                     (case decode_integer (PBytes data) current_pos of
                        Inl err \<Rightarrow> Some (Inl err)
                      | Inr (integer, end) \<Rightarrow>
                          decode_dictionary_loop n data (end + 1)
                            (setitem result (PBytes key) (PInt integer)))
                   else if is_digit c then
                     (case decode_string (PBytes data) current_pos of
                        Inl err \<Rightarrow> Some (Inl err)
                      | Inr (string, end) \<Rightarrow>
                          decode_dictionary_loop n data (end + 1)
                            (setitem result (PBytes key) (PBytes string)))
                   else if c = CHR ''l'' then
                     (case decode_list n (PBytes data) current_pos of
                        None \<Rightarrow> None
                      | Some (Inl err) \<Rightarrow> Some (Inl err)
                      | Some (Inr (lst, end)) \<Rightarrow>
                          decode_dictionary_loop n data (end + 1)
                            (setitem result (PBytes key) (PList lst)))
                   else if c = CHR ''d'' then
                     (case decode_dictionary n (PBytes data) current_pos of
                        None \<Rightarrow> None
                      | Some (Inl err) \<Rightarrow> Some (Inl err)
                      | Some (Inr (dictionary, end)) \<Rightarrow>
                          decode_dictionary_loop n data (end + 1)
                            (setitem result (PBytes key) (PDict dictionary)))
                   else Some (Inl DecodeDictionaryError)))))"
  by pat_completeness auto
termination
  by (relation "measure (\<lambda>x. case x of
        Inl (Inl (n, d, p)) \<Rightarrow> n
      | Inl (Inr (n, d, p, c)) \<Rightarrow> n
      | Inr (Inl (n, d, p)) \<Rightarrow> n
      | Inr (Inr (n, d, p, c)) \<Rightarrow> n)") auto

text \<open>
  \<^verbatim>\<open>if not isinstance(data, bytes): data = data.encode()\<close> in \<^verbatim>\<open>decode\<close>: only a text
  string has \<^verbatim>\<open>encode\<close>.
\<close>

fun decode_buffer :: "pyval \<Rightarrow> error + bytes" where
  "decode_buffer (PBytes b) = Inr b"
| "decode_buffer (PStr s) = Inr s"
| "decode_buffer v = Inl AttributeError"

text \<open>
  \<^verbatim>\<open>decode\<close> ends without a \<^verbatim>\<open>return\<close> when no test matches, so it returns
  \<^verbatim>\<open>None\<close>, here \<open>PNone\<close>.
\<close>

definition decode :: "nat \<Rightarrow> pyval \<Rightarrow> int \<Rightarrow> pyval outcome" where
  "decode n data pos =
     (case decode_buffer data of
        Inl err \<Rightarrow> Some (Inl err)
      | Inr data \<Rightarrow>
          (case getitem data pos of
             Inl err \<Rightarrow> Some (Inl err)
           | Inr c \<Rightarrow>
               if c = CHR ''i'' then
                 (case decode_integer (PBytes data) pos of
                    Inl err \<Rightarrow> Some (Inl err)
                  | Inr (integer, end) \<Rightarrow> Some (Inr (PInt integer)))
               else if is_digit c then
                 (case decode_string (PBytes data) pos of
                    Inl err \<Rightarrow> Some (Inl err)
                  | Inr (string, end) \<Rightarrow> Some (Inr (PBytes string)))
               else if c = CHR ''l'' then
                 (case decode_list n (PBytes data) pos of
                    None \<Rightarrow> None
                  | Some (Inl err) \<Rightarrow> Some (Inl err)
                  | Some (Inr (lst, end)) \<Rightarrow> Some (Inr (PList lst)))
               else if c = CHR ''d'' then
                 (case decode_dictionary n (PBytes data) pos of
                    None \<Rightarrow> None
                  | Some (Inl err) \<Rightarrow> Some (Inl err)
                  | Some (Inr (dictionary, end)) \<Rightarrow> Some (Inr (PDict dictionary)))
               else Some (Inr PNone)))"

section \<open>Predicates and functions used in the statements\<close>

text \<open>
  The values the round-trip claims quantify over: integers, byte strings, lists of such
  values and dictionaries from byte strings to such values.  The keys of a Python
  dictionary are pairwise different, which the list of items has to say.  \<open>benc\<close> is
  the byte string the grammar of the format assigns to such a value; it is used to state
  lemmas about buffers and is related to the encoder of the source by
  \<open>encode_benc\<close>.  \<open>supported_kind\<close> is the disjunction of the four type tests of
  \<^verbatim>\<open>encode_list\<close>.
\<close>

fun is_bytes :: "pyval \<Rightarrow> bool" where
  "is_bytes (PBytes b) = True"
| "is_bytes v = False"

fun bencodable :: "pyval \<Rightarrow> bool" where
  "bencodable (PInt n) = True"
| "bencodable (PBytes b) = True"
| "bencodable (PList items) = list_all bencodable items"
| "bencodable (PDict items) =
     (distinct (map fst items) \<and> list_all (\<lambda>kv. is_bytes (fst kv) \<and> bencodable (snd kv)) items)"
| "bencodable v = False"

fun benc :: "pyval \<Rightarrow> bytes" where
  "benc (PInt n) = ''i'' @ str_int n @ ''e''"
| "benc (PBytes b) = str_nat (length b) @ '':'' @ b"
| "benc (PList items) = ''l'' @ concat (map benc items) @ ''e''"
| "benc (PDict items) = ''d'' @ concat (map (\<lambda>kv. benc (fst kv) @ benc (snd kv)) items) @ ''e''"
| "benc v = []"

definition supported_kind :: "pyval \<Rightarrow> bool" where
  "supported_kind v =
     (isinstance_int v \<or> isinstance_str_bytes v \<or> isinstance_list v \<or> isinstance_dict v)"

text \<open>
  How the round trip is stated inside a buffer: \<open>decodes_to n data p v e\<close> says that the
  byte at \<open>p\<close> selects the routine for the kind of \<open>v\<close> in the dispatch shared by
  \<^verbatim>\<open>decode\<close> and the two loops, and that this routine, run with fuel \<open>n\<close>, returns \<open>v\<close>
  and the end position \<open>e\<close>.  \<open>decodes_benc v N\<close> says so for the bytes \<open>benc v\<close>
  wherever they stand in a buffer, for every amount of fuel from \<open>N\<close> on.  \<open>fuel v\<close> is an
  amount of fuel that suffices for \<open>benc v\<close>: one unit per call of a container routine
  and per loop iteration, as the decoder uses it.
\<close>

fun decodes_to :: "nat \<Rightarrow> bytes \<Rightarrow> int \<Rightarrow> pyval \<Rightarrow> int \<Rightarrow> bool" where
  "decodes_to n data p (PInt k) e =
     (getitem data p = Inr (CHR ''i'') \<and> decode_integer (PBytes data) p = Inr (k, e))"
| "decodes_to n data p (PBytes b) e =
     ((case getitem data p of Inl err \<Rightarrow> False | Inr c \<Rightarrow> is_digit c)
      \<and> decode_string (PBytes data) p = Inr (b, e))"
| "decodes_to n data p (PList xs) e =
     (getitem data p = Inr (CHR ''l'') \<and> decode_list n (PBytes data) p = Some (Inr (xs, e)))"
| "decodes_to n data p (PDict kvs) e =
     (getitem data p = Inr (CHR ''d'')
      \<and> decode_dictionary n (PBytes data) p = Some (Inr (kvs, e)))"
| "decodes_to n data p v e = False"

abbreviation decodes_benc :: "pyval \<Rightarrow> nat \<Rightarrow> bool" where
  "decodes_benc v N \<equiv>
     \<forall>m\<ge>N. \<forall>pre post.
       decodes_to m (pre @ benc v @ post) (int (length pre)) v
         (int (length pre + length (benc v)) - 1)"

fun fuel :: "pyval \<Rightarrow> nat" where
  "fuel (PList items) = sum_list (map fuel items) + length items + 2"
| "fuel (PDict items) = sum_list (map (\<lambda>kv. fuel (snd kv)) items) + length items + 2"
| "fuel v = 0"

section \<open>Properties\<close>

subsection \<open>Basic facts about the built-in operations\<close>

lemma getitem_nat:
  "i < length data \<Longrightarrow> getitem data (int i) = Inr (data ! i)"
  by (simp add: getitem_def)

lemma getitem_append: "getitem (pre @ c # rest) (int (length pre)) = Inr c"
  by (simp add: getitem_def)

lemma getitem_Inr_bound: "getitem data p = Inr c \<Longrightarrow> p < int (length data)"
  by (auto simp: getitem_def Let_def split: if_splits)

lemma index_of_append: "c \<notin> set ds \<Longrightarrow> index_of c (ds @ c # rest) = Some (length ds)"
  by (induction ds) auto

lemma find_append:
  "c \<notin> set ds \<Longrightarrow> find (pre @ ds @ c # rest) c (int (length pre)) = int (length pre + length ds)"
  by (simp add: find_def clamp_index_def index_of_append)

lemma slice_nat:
  "a \<le> b \<Longrightarrow> b \<le> length data \<Longrightarrow> slice data (int a) (int b) = take (b - a) (drop a data)"
  by (simp add: slice_def clamp_index_def)

lemma slice_append:
  "slice (pre @ mid @ post) (int (length pre)) (int (length pre + length mid)) = mid"
  by (subst slice_nat) simp_all

lemma is_digit_digit_char: "d < 10 \<Longrightarrow> is_digit (digit_char d)"
  by (simp add: is_digit_def digit_char_def)

lemma digit_val_digit_char: "d < 10 \<Longrightarrow> digit_val (digit_char d) = d"
  by (simp add: digit_val_def digit_char_def)

lemma str_nat_digits: "list_all is_digit (str_nat n)"
  by (induction n rule: str_nat.induct) (subst str_nat.simps, simp add: is_digit_digit_char)

lemma str_nat_nonempty: "str_nat n \<noteq> []"
  by (subst str_nat.simps) simp

lemma foldl_digits_str_nat: "foldl (\<lambda>a c. 10 * a + digit_val c) 0 (str_nat n) = n"
  by (induction n rule: str_nat.induct) (subst str_nat.simps, simp add: digit_val_digit_char)

lemma digits_value_all_digits:
  "list_all is_digit s \<Longrightarrow> digits_value s = foldl (\<lambda>a c. 10 * a + digit_val c) 0 s"
  by (simp add: digits_value_def list_all_iff)

lemma digits_value_str_nat: "digits_value (str_nat n) = n"
  by (simp add: digits_value_all_digits str_nat_digits foldl_digits_str_nat)

lemma is_digit_not_special:
  "is_digit c \<Longrightarrow> \<not> is_space c \<and> c \<noteq> CHR ''-'' \<and> c \<noteq> CHR ''+'' \<and> c \<noteq> CHR ''_''
     \<and> c \<noteq> CHR ''i'' \<and> c \<noteq> CHR ''l'' \<and> c \<noteq> CHR ''d'' \<and> c \<noteq> CHR ''e'' \<and> c \<noteq> CHR '':''"
  by (auto simp: is_digit_def is_space_def)

lemma valid_digits_all_digits: "s \<noteq> [] \<Longrightarrow> list_all is_digit s \<Longrightarrow> valid_digits s"
  by (induction s rule: valid_digits.induct) (auto dest: is_digit_not_special)

lemma py_int_digits:
  assumes "s \<noteq> []" and "list_all is_digit s"
  shows "py_int s = Some (int (digits_value s))"
proof -
  from assms obtain c cs where s: "s = c # cs" by (cases s) auto
  with assms have c: "is_digit c" by simp
  have tw: "takeWhile (\<lambda>c. is_digit c \<or> c = CHR ''_'') s = s"
    using assms(2) by (simp add: list_all_iff)
  have dw: "dropWhile (\<lambda>c. is_digit c \<or> c = CHR ''_'') s = []"
    using assms(2) by (simp add: list_all_iff)
  have sp: "dropWhile is_space s = s"
    using c is_digit_not_special[OF c] by (simp add: s)
  have hd: "hd s \<noteq> CHR ''-''" "hd s \<noteq> CHR ''+''"
    using is_digit_not_special[OF c] by (simp_all add: s)
  show ?thesis
    unfolding py_int_def Let_def
    by (simp add: sp tw dw hd valid_digits_all_digits[OF assms])
qed

lemma py_int_minus_digits:
  assumes "s \<noteq> []" and "list_all is_digit s"
  shows "py_int (CHR ''-'' # s) = Some (- int (digits_value s))"
proof -
  have tw: "takeWhile (\<lambda>c. is_digit c \<or> c = CHR ''_'') s = s"
    using assms(2) by (simp add: list_all_iff)
  have dw: "dropWhile (\<lambda>c. is_digit c \<or> c = CHR ''_'') s = []"
    using assms(2) by (simp add: list_all_iff)
  have sp: "\<not> is_space (CHR ''-'')"
    by (simp add: is_space_def)
  show ?thesis
    unfolding py_int_def Let_def
    by (simp add: sp tw dw valid_digits_all_digits[OF assms])
qed

lemma py_int_str_nat: "py_int (str_nat n) = Some (int n)"
  by (simp add: py_int_digits str_nat_nonempty str_nat_digits digits_value_str_nat)

lemma py_int_str_int: "py_int (str_int k) = Some k"
  by (simp add: str_int_def py_int_digits py_int_minus_digits str_nat_nonempty str_nat_digits
        digits_value_str_nat)

lemma str_nat_no_colon: "CHR '':'' \<notin> set (str_nat n)"
  using str_nat_digits[of n] is_digit_not_special by (auto simp: list_all_iff)

lemma str_int_no_e: "CHR ''e'' \<notin> set (str_int k)"
  using str_nat_digits is_digit_not_special by (auto simp: list_all_iff str_int_def)

lemma hd_str_nat: "\<exists>c cs. str_nat n = c # cs \<and> is_digit c"
  using str_nat_nonempty[of n] str_nat_digits[of n] by (cases "str_nat n") auto

subsection \<open>Decoding an encoded integer or byte string inside a buffer\<close>

lemma decode_integer_benc:
  "decode_integer (PBytes (pre @ ''i'' @ str_int k @ ''e'' @ post)) (int (length pre))
     = Inr (k, int (length pre + length (str_int k) + 1))"
proof -
  let ?data = "pre @ (CHR ''i'' # str_int k) @ CHR ''e'' # post"
  have g: "getitem ?data (int (length pre)) = Inr (CHR ''i'')"
    using getitem_append[of pre "CHR ''i''" "str_int k @ CHR ''e'' # post"] by simp
  have f: "find ?data (CHR ''e'') (int (length pre)) = int (length pre + length (CHR ''i'' # str_int k))"
    by (rule find_append) (simp add: str_int_no_e)
  have s: "slice ?data (int (length pre) + 1) (int (length pre + length (CHR ''i'' # str_int k))) = str_int k"
    using slice_append[of "pre @ ''i''" "str_int k" "CHR ''e'' # post"] by (simp add: add.commute)
  show ?thesis
    using g f s by (simp add: decode_integer_def py_int_str_int)
qed

lemma decode_string_benc:
  "decode_string (PBytes (pre @ str_nat (length b) @ '':'' @ b @ post)) (int (length pre))
     = Inr (b, int (length pre + length (str_nat (length b)) + length b))"
proof -
  let ?ds = "str_nat (length b)"
  let ?data = "pre @ ?ds @ CHR '':'' # b @ post"
  have f: "find ?data (CHR '':'') (int (length pre)) = int (length pre + length ?ds)"
    by (rule find_append) (rule str_nat_no_colon)
  have s1: "slice ?data (int (length pre)) (int (length pre + length ?ds)) = ?ds"
    by (rule slice_append)
  have s2: "slice ?data (int (length pre + length ?ds) + 1 ) (int (length pre + length ?ds) + 1 + int (length b)) = b"
    using slice_append[of "pre @ ?ds @ '':''" b post] by (simp add: add.commute add.left_commute)
  show ?thesis
    using f s1 s2 by (simp add: decode_string_def py_int_str_nat)
qed

subsection \<open>C2: a leading byte outside the grammar\<close>

text \<open>
  C2.  The claim asks for a decode error when the byte at the start position is none of
  \<open>i\<close>, a digit, \<open>l\<close>, \<open>d\<close>.  The code has no final \<^verbatim>\<open>raise\<close> in \<^verbatim>\<open>decode\<close>: for every
  such buffer and position it returns \<^verbatim>\<open>None\<close> without raising, whatever the fuel.
\<close>

theorem decode_unknown_tag_returns_None:
  "getitem data pos = Inr c \<Longrightarrow> c \<noteq> CHR ''i'' \<Longrightarrow> \<not> is_digit c \<Longrightarrow>
   c \<noteq> CHR ''l'' \<Longrightarrow> c \<noteq> CHR ''d'' \<Longrightarrow>
   decode n (PBytes data) pos = Some (Inr PNone)"
  by (simp add: decode_def)

theorem decode_unknown_tag_returns_None_witness:
  "getitem ''x'' 0 = Inr (CHR ''x'') \<and> decode 0 (PBytes ''x'') 0 = Some (Inr PNone)"
  using decode_unknown_tag_returns_None [of "''x''" 0 "CHR ''x''" 0]
  by (simp add: getitem_def is_digit_def)

subsection \<open>C3: unterminated containers\<close>

text \<open>
  C3.  \<^verbatim>\<open>decode(b"l4:spam")\<close> raises \<^verbatim>\<open>DecodeListError\<close> as claimed, but
  \<^verbatim>\<open>decode(b"d3:key")\<close> raises \<^verbatim>\<open>IndexError\<close>: after the key the cursor is 6, the
  length of the buffer, and \<^verbatim>\<open>data[current_pos]\<close> is read before the loop test.
\<close>

theorem decode_unterminated_containers:
  "decode (Suc (Suc (Suc n))) (PBytes ''l4:spam'') 0 = Some (Inl DecodeListError) \<and>
   decode (Suc (Suc n)) (PBytes ''d3:key'') 0 = Some (Inl IndexError)"
  by (simp add: decode_def getitem_def is_digit_def decode_string_def find_def
        clamp_index_def slice_def py_int_def is_space_def digits_value_def digit_val_def)

subsection \<open>C4: integer literals\<close>

text \<open>
  C4, counterexample.  The literal \<^verbatim>\<open>b"i04e"\<close> does not raise: \<^verbatim>\<open>int(b"04")\<close> is 4;
  likewise \<^verbatim>\<open>b"i-0e"\<close> decodes to 0.
\<close>

theorem decode_integer_leading_zero_counterexample:
  "decode 0 (PBytes ''i04e'') 0 = Some (Inr (PInt 4)) \<and>
   decode 0 (PBytes ''i-0e'') 0 = Some (Inr (PInt 0))"
  by (simp add: decode_def getitem_def is_digit_def decode_integer_def find_def
        clamp_index_def slice_def py_int_def is_space_def digits_value_def digit_val_def)

text \<open>
  C4, as amended.  \<^verbatim>\<open>decode(b"i0e") == 0\<close>, \<^verbatim>\<open>decode(b"i-42e") == -42\<close>, the empty
  literal \<^verbatim>\<open>b"ie"\<close> raises \<^verbatim>\<open>DecodeIntegerError\<close>, and the literals with a leading zero
  or a negative zero are accepted with the value \<^verbatim>\<open>int()\<close> gives them: 4 and 0.
\<close>

theorem decode_integer_edge_cases:
  "decode n (PBytes ''i0e'') 0 = Some (Inr (PInt 0)) \<and>
   decode n (PBytes ''i-42e'') 0 = Some (Inr (PInt (- 42))) \<and>
   decode n (PBytes ''ie'') 0 = Some (Inl DecodeIntegerError) \<and>
   decode n (PBytes ''i04e'') 0 = Some (Inr (PInt 4)) \<and>
   decode n (PBytes ''i-0e'') 0 = Some (Inr (PInt 0))"
  by (simp add: decode_def getitem_def is_digit_def decode_integer_def find_def
        clamp_index_def slice_def py_int_def is_space_def digits_value_def digit_val_def)

subsection \<open>C5: the start byte of a dictionary\<close>

text \<open>
  C5.  When the byte at \<open>pos\<close> is not \<open>d\<close>, \<^verbatim>\<open>decode_dictionary\<close> raises
  \<^verbatim>\<open>DecodeListError\<close>, the class named in its \<^verbatim>\<open>raise\<close>, not
  \<^verbatim>\<open>DecodeDictionaryError\<close>.
\<close>

theorem decode_dictionary_wrong_start_raises_list_error:
  "getitem data pos = Inr c \<Longrightarrow> c \<noteq> CHR ''d'' \<Longrightarrow>
   decode_dictionary (Suc n) (PBytes data) pos = Some (Inl DecodeListError)"
  by simp

theorem decode_dictionary_wrong_start_raises_list_error_witness:
  "getitem ''i0e'' 0 = Inr (CHR ''i'') \<and>
   decode_dictionary (Suc 0) (PBytes ''i0e'') 0 = Some (Inl DecodeListError)"
  using decode_dictionary_wrong_start_raises_list_error [of "''i0e''" 0 "CHR ''i''" 0]
  by (simp add: getitem_def)

subsection \<open>C7: list elements of an unsupported kind\<close>

lemma supported_kind_simps [simp]:
  "supported_kind (PInt n)" "supported_kind (PBool b)" "supported_kind (PBytes bs)"
  "supported_kind (PStr bs)" "supported_kind (PList xs)" "supported_kind (PDict kvs)"
  "\<not> supported_kind PNone" "\<not> supported_kind POther"
  by (simp_all add: supported_kind_def)

lemma digit_char_1: "digit_char (Suc 0) = CHR ''1''"
  by code_simp

lemma encode_list_loop_skip:
  assumes "\<forall>x\<in>set items. supported_kind x \<longrightarrow> encode x = Inr (enc x)"
  shows "encode_list_loop items result
           = Inr (result @ concat (map enc (filter supported_kind items)) @ ''e'')"
  using assms
proof (induction items arbitrary: result)
  case Nil
  show ?case by simp
next
  case (Cons item rest)
  have rest: "\<And>r. encode_list_loop rest r
                = Inr (r @ concat (map enc (filter supported_kind rest)) @ ''e'')"
    using Cons by simp
  have item: "supported_kind item \<Longrightarrow> encode item = Inr (enc item)"
    using Cons.prems by simp
  show ?case
  proof (cases item)
    case (PInt n)
    with item show ?thesis by (simp add: rest encode_def)
  next
    case (PBool b)
    with item show ?thesis by (simp add: rest encode_def)
  next
    case (PBytes b)
    with item show ?thesis by (simp add: rest encode_def)
  next
    case (PStr s)
    with item show ?thesis by (simp add: rest encode_def)
  next
    case (PList xs)
    with item show ?thesis by (simp add: rest encode_def)
  next
    case (PDict kvs)
    with item show ?thesis by (simp add: rest encode_def)
  next
    case PNone
    then show ?thesis by (simp add: rest)
  next
    case POther
    then show ?thesis by (simp add: rest)
  qed
qed

text \<open>
  C7.  \<^verbatim>\<open>encode_list\<close> does not raise on an element that passes none of its four type
  tests: the element is passed over.  Whenever the elements that pass a test encode (to
  \<open>enc x\<close>), the output is \<open>l\<close>, the encodings of exactly those elements in order,
  and \<open>e\<close>.
\<close>

theorem encode_list_skips_unsupported:
  assumes "\<forall>x\<in>set items. supported_kind x \<longrightarrow> encode x = Inr (enc x)"
  shows "encode_list (PList items)
           = Inr (''l'' @ concat (map enc (filter supported_kind items)) @ ''e'')"
  using encode_list_loop_skip[OF assms, of "''l''"] by simp

theorem encode_list_skips_unsupported_witness:
  "encode_list (PList [PInt 1, PNone, PBytes ''a'', POther]) = Inr ''li1e1:ae''"
  using encode_list_skips_unsupported
    [of "[PInt 1, PNone, PBytes ''a'', POther]"
        "\<lambda>x. case encode x of Inr b \<Rightarrow> b | Inl e \<Rightarrow> []"]
  by (simp add: encode_def encode_integer_def encode_string_def
        str_int_def str_nat.simps digit_char_1)

subsection \<open>The encoder on values of the four kinds\<close>

lemma bencodable_supported: "bencodable v \<Longrightarrow> supported_kind v"
  by (cases v) simp_all

lemma encode_dictionary_loop_benc:
  assumes "\<forall>kv\<in>set items. is_bytes (fst kv) \<and> bencodable (snd kv)
             \<and> encode (snd kv) = Inr (benc (snd kv))"
  shows "encode_dictionary_loop items result
           = Inr (result @ concat (map (\<lambda>kv. benc (fst kv) @ benc (snd kv)) items) @ ''e'')"
  using assms
proof (induction items arbitrary: result)
  case Nil
  show ?case by simp
next
  case (Cons kv rest)
  obtain k v where kv: "kv = (k, v)" by (cases kv)
  have rest: "\<And>r. encode_dictionary_loop rest r
                = Inr (r @ concat (map (\<lambda>kv. benc (fst kv) @ benc (snd kv)) rest) @ ''e'')"
    using Cons by simp
  from Cons.prems kv obtain b where k: "k = PBytes b"
    by (cases k) simp_all
  have v: "bencodable v" "encode v = Inr (benc v)"
    using Cons.prems kv by simp_all
  show ?case
    using v by (cases v) (simp_all add: kv k rest encode_def encode_string_def)
qed

lemma encode_benc: "bencodable v \<Longrightarrow> encode v = Inr (benc v)"
proof (induction v)
  case (PInt n)
  show ?case by (simp add: encode_def encode_integer_def)
next
  case (PBytes b)
  show ?case by (simp add: encode_def encode_string_def)
next
  case (PList items)
  have all: "\<forall>x\<in>set items. bencodable x" using PList.prems by (simp add: list_all_iff)
  have "\<forall>x\<in>set items. supported_kind x \<longrightarrow> encode x = Inr (benc x)"
    using PList.IH all by blast
  from encode_list_loop_skip[OF this, of "''l''"]
  have "encode_list_loop items ''l'' = Inr (''l'' @ concat (map benc (filter supported_kind items)) @ ''e'')" .
  moreover have "filter supported_kind items = items"
    using all bencodable_supported by (simp add: filter_id_conv)
  ultimately show ?case by (simp add: encode_def)
next
  case (PDict items)
  have all: "\<forall>kv\<in>set items. is_bytes (fst kv) \<and> bencodable (snd kv)"
    using PDict.prems by (simp add: list_all_iff)
  have "\<forall>kv\<in>set items. is_bytes (fst kv) \<and> bencodable (snd kv)
             \<and> encode (snd kv) = Inr (benc (snd kv))"
  proof
    fix kv assume kv: "kv \<in> set items"
    obtain k v where e: "kv = (k, v)" by (cases kv)
    have "encode v = Inr (benc v)"
      using PDict.IH[of kv v] kv all e by auto
    then show "is_bytes (fst kv) \<and> bencodable (snd kv) \<and> encode (snd kv) = Inr (benc (snd kv))"
      using all kv e by auto
  qed
  from encode_dictionary_loop_benc[OF this, of "''d''"]
  show ?case by (simp add: encode_def)
qed simp_all

subsection \<open>The decoder on the encoding of a value of the four kinds\<close>

lemma not_digit_tags:
  "\<not> is_digit (CHR ''i'')" "\<not> is_digit (CHR ''l'')" "\<not> is_digit (CHR ''d'')"
  "\<not> is_digit (CHR ''e'')"
  by (simp_all add: is_digit_def)

lemma decode_list_loop_step:
  assumes "decodes_to n data p v e"
  shows "decode_list_loop (Suc n) data p contents
           = decode_list_loop n data (e + 1) (contents @ [v])"
proof (cases v)
  case (PInt k)
  with assms show ?thesis
    using getitem_Inr_bound[of data p "CHR ''i''"] by simp
next
  case (PBytes b)
  with assms obtain c where c: "getitem data p = Inr c" "is_digit c"
    and d: "decode_string (PBytes data) p = Inr (b, e)"
    by (auto split: sum.splits)
  show ?thesis
    using c d getitem_Inr_bound[OF c(1)] is_digit_not_special[OF c(2)] PBytes by simp
next
  case (PList xs)
  with assms show ?thesis
    using getitem_Inr_bound[of data p "CHR ''l''"] by (simp add: not_digit_tags)
next
  case (PDict kvs)
  with assms show ?thesis
    using getitem_Inr_bound[of data p "CHR ''d''"] by (simp add: not_digit_tags)
qed (use assms in simp_all)

lemma decode_dictionary_loop_step:
  assumes "decodes_to n0 data p (PBytes k) e1" and "decodes_to n data (e1 + 1) v e"
  shows "decode_dictionary_loop (Suc n) data p result
           = decode_dictionary_loop n data (e + 1) (setitem result (PBytes k) v)"
proof -
  from assms(1) obtain c where c: "getitem data p = Inr c" "is_digit c"
    and d: "decode_string (PBytes data) p = Inr (k, e1)"
    by (auto split: sum.splits)
  note pre = c(1) d getitem_Inr_bound[OF c(1)] is_digit_not_special[OF c(2)]
  show ?thesis
  proof (cases v)
    case (PInt j)
    with assms(2) show ?thesis using pre by simp
  next
    case (PBytes b)
    with assms(2) obtain c' where c': "getitem data (e1 + 1) = Inr c'" "is_digit c'"
      and d': "decode_string (PBytes data) (e1 + 1) = Inr (b, e)"
      by (auto split: sum.splits)
    show ?thesis
      using pre c' d' is_digit_not_special[OF c'(2)] PBytes by simp
  next
    case (PList xs)
    with assms(2) show ?thesis using pre by (simp add: not_digit_tags)
  next
    case (PDict kvs)
    with assms(2) show ?thesis using pre by (simp add: not_digit_tags)
  qed (use assms in simp_all)
qed

lemma decode_of_decodes_to:
  assumes "decodes_to n data 0 v e"
  shows "decode n (PBytes data) 0 = Some (Inr v)"
proof (cases v)
  case (PBytes b)
  with assms obtain c where c: "getitem data 0 = Inr c" "is_digit c"
    and d: "decode_string (PBytes data) 0 = Inr (b, e)"
    by (auto split: sum.splits)
  show ?thesis
    using c d is_digit_not_special[OF c(2)] PBytes by (simp add: decode_def)
qed (use assms in \<open>simp_all add: decode_def not_digit_tags\<close>)

lemma setitem_new: "k \<notin> fst ` set acc \<Longrightarrow> setitem acc k v = acc @ [(k, v)]"
  by (induction acc) auto

lemma decode_list_loop_benc:
  assumes "\<forall>x\<in>set xs. decodes_benc x N"
    and "N + length xs + 1 \<le> m"
  shows "decode_list_loop m (pre @ concat (map benc xs) @ ''e'' @ post) (int (length pre)) contents
           = Some (Inr (contents @ xs, int (length pre + length (concat (map benc xs)))))"
  using assms
proof (induction xs arbitrary: m pre contents)
  case Nil
  then obtain m' where m: "m = Suc m'" by (cases m) auto
  have "getitem (pre @ CHR ''e'' # post) (int (length pre)) = Inr (CHR ''e'')"
    by (rule getitem_append)
  then show ?case
    by (simp add: m not_digit_tags)
next
  case (Cons x xs)
  then obtain m' where m: "m = Suc m'" and m': "N + length xs + 1 \<le> m'"
    by (cases m) auto
  let ?post = "concat (map benc xs) @ ''e'' @ post"
  from Cons.prems(1) m' have
    "decodes_to m' (pre @ benc x @ ?post) (int (length pre)) x
       (int (length pre + length (benc x)) - 1)"
    by simp
  from decode_list_loop_step[OF this, of contents]
  have "decode_list_loop m (pre @ benc x @ ?post) (int (length pre)) contents
          = decode_list_loop m' ((pre @ benc x) @ ?post) (int (length (pre @ benc x)))
              (contents @ [x])"
    by (simp add: m)
  also have "\<dots> = Some (Inr ((contents @ [x]) @ xs,
                 int (length (pre @ benc x) + length (concat (map benc xs)))))"
    using Cons.prems(1) m' by (intro Cons.IH) auto
  finally show ?case by simp
qed

lemma decode_list_benc:
  assumes "\<forall>x\<in>set xs. decodes_benc x N"
  shows "decodes_benc (PList xs) (N + length xs + 2)"
proof (intro allI impI)
  fix m pre post
  assume "N + length xs + 2 \<le> m"
  then obtain m' where m: "m = Suc m'" and m': "N + length xs + 1 \<le> m'"
    by (cases m) auto
  let ?body = "concat (map benc xs)"
  have g: "getitem (pre @ CHR ''l'' # ?body @ CHR ''e'' # post) (int (length pre)) = Inr (CHR ''l'')"
    by (rule getitem_append)
  have l: "decode_list_loop m' ((pre @ ''l'') @ ?body @ ''e'' @ post) (int (length (pre @ ''l''))) []
             = Some (Inr ([] @ xs, int (length (pre @ ''l'') + length ?body)))"
    using assms m' by (rule decode_list_loop_benc)
  show "decodes_to m (pre @ benc (PList xs) @ post) (int (length pre)) (PList xs)
          (int (length pre + length (benc (PList xs))) - 1)"
    using g l by (simp add: m add.commute)
qed

lemma decodes_benc_int: "decodes_benc (PInt k) N"
proof (intro allI impI)
  fix m :: nat and pre post
  have g: "getitem (pre @ CHR ''i'' # str_int k @ CHR ''e'' # post) (int (length pre)) = Inr (CHR ''i'')"
    by (rule getitem_append)
  show "decodes_to m (pre @ benc (PInt k) @ post) (int (length pre)) (PInt k)
          (int (length pre + length (benc (PInt k))) - 1)"
    using g decode_integer_benc[of pre k post] by simp
qed

lemma decodes_benc_bytes: "decodes_benc (PBytes b) N"
proof (intro allI impI)
  fix m :: nat and pre post
  obtain c cs where c: "str_nat (length b) = c # cs" "is_digit c"
    using hd_str_nat by blast
  have g: "getitem (pre @ c # cs @ CHR '':'' # b @ post) (int (length pre)) = Inr c"
    by (rule getitem_append)
  have d: "decode_string (PBytes (pre @ (c # cs) @ '':'' @ b @ post)) (int (length pre))
             = Inr (b, int (length pre + length (c # cs) + length b))"
    using decode_string_benc[of pre b post] by (simp only: c(1))
  show "decodes_to m (pre @ benc (PBytes b) @ post) (int (length pre)) (PBytes b)
          (int (length pre + length (benc (PBytes b))) - 1)"
    using g d c by simp
qed

lemma decode_dictionary_loop_benc:
  assumes "\<forall>kv\<in>set kvs. is_bytes (fst kv) \<and> decodes_benc (snd kv) N"
    and "distinct (map fst (acc @ kvs))"
    and "N + length kvs + 1 \<le> m"
  shows "decode_dictionary_loop m
           (pre @ concat (map (\<lambda>kv. benc (fst kv) @ benc (snd kv)) kvs) @ ''e'' @ post)
           (int (length pre)) acc
         = Some (Inr (acc @ kvs,
             int (length pre + length (concat (map (\<lambda>kv. benc (fst kv) @ benc (snd kv)) kvs)))))"
  using assms
proof (induction kvs arbitrary: m pre acc)
  case Nil
  then obtain m' where m: "m = Suc m'" by (cases m) auto
  have "getitem (pre @ CHR ''e'' # post) (int (length pre)) = Inr (CHR ''e'')"
    by (rule getitem_append)
  then show ?case
    by (simp add: m)
next
  case (Cons kv kvs)
  obtain key v where kv: "kv = (key, v)" by (cases kv)
  from Cons.prems(1) obtain k where key: "key = PBytes k"
    by (cases key) (auto simp: kv)
  from Cons.prems(3) obtain m' where m: "m = Suc m'" and m': "N + length kvs + 1 \<le> m'"
    by (cases m) auto
  let ?f = "\<lambda>kv. benc (fst kv) @ benc (snd kv)"
  let ?post = "concat (map ?f kvs) @ ''e'' @ post"
  let ?data = "pre @ benc key @ benc v @ ?post"
  have dk: "decodes_to 0 ?data (int (length pre)) (PBytes k)
              (int (length pre + length (benc (PBytes k))) - 1)"
    using decodes_benc_bytes[where b = k and N = 0] by (simp add: key)
  have vb: "decodes_benc v N"
    using Cons.prems(1) by (simp add: kv)
  have "N \<le> m'"
    using m' by simp
  from vb[rule_format, OF this, of "pre @ benc key" ?post]
  have "decodes_to m' ((pre @ benc key) @ benc v @ ?post) (int (length (pre @ benc key))) v
          (int (length (pre @ benc key) + length (benc v)) - 1)" .
  then have dv: "decodes_to m' ?data (int (length pre + length (benc (PBytes k))) - 1 + 1) v
          (int (length (pre @ benc key) + length (benc v)) - 1)"
    by (simp add: key ac_simps)
  have new: "setitem acc (PBytes k) v = acc @ [(key, v)]"
    using Cons.prems(2) setitem_new[of "PBytes k" acc v] by (auto simp: kv key)
  have step: "decode_dictionary_loop (Suc m') ?data (int (length pre)) acc
          = decode_dictionary_loop m' ?data
              (int (length (pre @ benc key) + length (benc v)) - 1 + 1)
              (setitem acc (PBytes k) v)"
    by (rule decode_dictionary_loop_step[OF dk dv])
  have pos: "int (length (pre @ benc key) + length (benc v)) - 1 + 1
          = int (length (pre @ benc key @ benc v))"
    by simp
  have "decode_dictionary_loop m ?data (int (length pre)) acc
          = decode_dictionary_loop m' ((pre @ benc key @ benc v) @ ?post)
              (int (length (pre @ benc key @ benc v))) (acc @ [kv])"
    by (simp only: m step pos new kv append_assoc)
  also have "\<dots> = Some (Inr ((acc @ [kv]) @ kvs,
                 int (length (pre @ benc key @ benc v) + length (concat (map ?f kvs)))))"
    using Cons.prems(1,2) m' by (intro Cons.IH) auto
  finally show ?case by (simp add: kv)
qed

lemma decode_dictionary_benc:
  assumes "\<forall>kv\<in>set kvs. is_bytes (fst kv) \<and> decodes_benc (snd kv) N"
    and "distinct (map fst kvs)"
  shows "decodes_benc (PDict kvs) (N + length kvs + 2)"
proof (intro allI impI)
  fix m pre post
  assume "N + length kvs + 2 \<le> m"
  then obtain m' where m: "m = Suc m'" and m': "N + length kvs + 1 \<le> m'"
    by (cases m) auto
  let ?body = "concat (map (\<lambda>kv. benc (fst kv) @ benc (snd kv)) kvs)"
  have g: "getitem (pre @ CHR ''d'' # ?body @ CHR ''e'' # post) (int (length pre)) = Inr (CHR ''d'')"
    by (rule getitem_append)
  have l: "decode_dictionary_loop m' ((pre @ ''d'') @ ?body @ ''e'' @ post)
             (int (length (pre @ ''d''))) []
             = Some (Inr ([] @ kvs, int (length (pre @ ''d'') + length ?body)))"
    using assms m' by (intro decode_dictionary_loop_benc) auto
  show "decodes_to m (pre @ benc (PDict kvs) @ post) (int (length pre)) (PDict kvs)
          (int (length pre + length (benc (PDict kvs))) - 1)"
    using g l by (simp add: m add.commute)
qed

lemma decodes_benc_mono: "decodes_benc v N \<Longrightarrow> N \<le> N' \<Longrightarrow> decodes_benc v N'"
  by simp

lemma bencodable_decodes_benc: "bencodable v \<Longrightarrow> decodes_benc v (fuel v)"
proof (induction v)
  case (PInt k)
  show ?case by (rule decodes_benc_int)
next
  case (PBytes b)
  show ?case by (rule decodes_benc_bytes)
next
  case (PList items)
  let ?N = "sum_list (map fuel items)"
  have "\<forall>x\<in>set items. decodes_benc x ?N"
  proof
    fix x assume x: "x \<in> set items"
    then have "bencodable x"
      using PList.prems by (simp add: list_all_iff)
    then have "decodes_benc x (fuel x)"
      using PList.IH x by blast
    moreover have "fuel x \<le> ?N"
      using x by (simp add: member_le_sum_list)
    ultimately show "decodes_benc x ?N"
      by (rule decodes_benc_mono)
  qed
  from decode_list_benc[OF this] show ?case
    by simp
next
  case (PDict items)
  let ?N = "sum_list (map (\<lambda>kv. fuel (snd kv)) items)"
  have all: "\<forall>kv\<in>set items. is_bytes (fst kv) \<and> bencodable (snd kv)"
    using PDict.prems by (simp add: list_all_iff)
  have "\<forall>kv\<in>set items. is_bytes (fst kv) \<and> decodes_benc (snd kv) ?N"
  proof
    fix kv assume kv: "kv \<in> set items"
    obtain k v where e: "kv = (k, v)" by (cases kv)
    have "decodes_benc v (fuel v)"
      using PDict.IH[of kv v] kv all e by auto
    moreover have "fuel (snd kv) \<in> set (map (\<lambda>kv. fuel (snd kv)) items)"
      using kv by (simp add: image_iff) blast
    then have "fuel v \<le> ?N"
      using member_le_sum_list e by fastforce
    ultimately have "decodes_benc v ?N"
      by (rule decodes_benc_mono)
    then show "is_bytes (fst kv) \<and> decodes_benc (snd kv) ?N"
      using all kv e by auto
  qed
  moreover have "distinct (map fst items)"
    using PDict.prems by simp
  ultimately have "decodes_benc (PDict items) (?N + length items + 2)"
    by (rule decode_dictionary_benc)
  then show ?case
    by simp
qed simp_all

lemma decode_benc:
  assumes "bencodable v" and "fuel v \<le> n"
  shows "decode n (PBytes (benc v)) 0 = Some (Inr v)"
proof -
  from bencodable_decodes_benc[OF assms(1)] assms(2)
  have "decodes_to n ([] @ benc v @ []) (int (length ([]::bytes))) v
          (int (length ([]::bytes) + length (benc v)) - 1)"
    by blast
  then have "decodes_to n (benc v) 0 v (int (length (benc v)) - 1)"
    by simp
  then show ?thesis
    by (rule decode_of_decodes_to)
qed

subsection \<open>C1: decoding an encoding\<close>

text \<open>
  C1.  For every value \<open>v\<close> built from integers, byte strings, lists of such values and
  dictionaries with pairwise different byte-string keys and such values,
  \<^verbatim>\<open>encode(v)\<close> returns a byte string and \<^verbatim>\<open>decode\<close> of that byte string returns \<open>v\<close>:
  the decoder neither raises nor runs on, \<open>fuel v\<close> units suffice.  Integers are the
  values of type \<^verbatim>\<open>int\<close> proper; a \<^verbatim>\<open>bool\<close> passes the integer test of the encoder but
  is written as a word (see C9), and a text string comes back as bytes, so neither is
  among the values of the statement.
\<close>

theorem decode_encode_round_trip:
  assumes "bencodable v" and "fuel v \<le> n"
  shows "\<exists>b. encode v = Inr b \<and> decode n (PBytes b) 0 = Some (Inr v)"
  using encode_benc[OF assms(1)] decode_benc[OF assms] by simp

theorem decode_encode_round_trip_witness:
  "bencodable (PDict [(PBytes ''k'', PList [PBytes ''spam'', PInt (- 42)])])
   \<and> fuel (PDict [(PBytes ''k'', PList [PBytes ''spam'', PInt (- 42)])]) \<le> 7
   \<and> (\<exists>b. encode (PDict [(PBytes ''k'', PList [PBytes ''spam'', PInt (- 42)])]) = Inr b
          \<and> decode 7 (PBytes b) 0
              = Some (Inr (PDict [(PBytes ''k'', PList [PBytes ''spam'', PInt (- 42)])])))"
  using decode_encode_round_trip
    [of "PDict [(PBytes ''k'', PList [PBytes ''spam'', PInt (- 42)])]" 7]
  by simp

subsection \<open>C6: encoding a decoded encoding\<close>

text \<open>
  C6.  For every byte string \<open>b\<close> that \<^verbatim>\<open>encode\<close> returns on a value of the four kinds
  (as in C1), \<^verbatim>\<open>decode(b)\<close> returns a value and \<^verbatim>\<open>encode\<close> of that value returns \<open>b\<close>
  again.
\<close>

lemma encode_example: "encode (PList [PInt 7, PBytes ''ab'']) = Inr ''li7e2:abe''"
  by code_simp

theorem encode_decode_canonical:
  assumes "bencodable v" and "encode v = Inr b" and "fuel v \<le> n"
  shows "\<exists>w. decode n (PBytes b) 0 = Some (Inr w) \<and> encode w = Inr b"
  using encode_benc[OF assms(1)] decode_benc[OF assms(1,3)] assms(2) by simp

theorem encode_decode_canonical_witness:
  "bencodable (PList [PInt 7, PBytes ''ab''])
   \<and> encode (PList [PInt 7, PBytes ''ab'']) = Inr ''li7e2:abe''
   \<and> fuel (PList [PInt 7, PBytes ''ab'']) \<le> 4
   \<and> (\<exists>w. decode 4 (PBytes ''li7e2:abe'') 0 = Some (Inr w) \<and> encode w = Inr ''li7e2:abe'')"
  using encode_decode_canonical [of "PList [PInt 7, PBytes ''ab'']" "''li7e2:abe''" 4]
    encode_example
  by simp

subsection \<open>C8: the end position\<close>

text \<open>
  C8.  With a negative declared length \<^verbatim>\<open>decode_string\<close> succeeds and returns an end
  position before the colon it has read: on \<^verbatim>\<open>b"-1:abc"\<close> the colon is at index 2 and
  the result is \<^verbatim>\<open>(b"", 1)\<close>.
\<close>

theorem decode_string_negative_length_end:
  "find ''-1:abc'' (CHR '':'') 0 = 2 \<and>
   decode_string (PBytes ''-1:abc'') 0 = Inr ([], 1)"
  by (simp add: decode_string_def find_def clamp_index_def slice_def py_int_def
        is_space_def is_digit_def digits_value_def digit_val_def)

subsection \<open>C9: the integer encoder\<close>

text \<open>
  C9.  \<^verbatim>\<open>True\<close> passes \<^verbatim>\<open>isinstance(data, int)\<close> and is formatted as its name:
  \<^verbatim>\<open>encode_integer(True)\<close> is \<^verbatim>\<open>b"iTruee"\<close>, which is not \<open>i\<close>, decimal digits, \<open>e\<close>.
\<close>

theorem encode_integer_bool:
  "encode_integer (PBool True) = Inr ''iTruee''"
  by (simp add: encode_integer_def)

subsection \<open>C10: termination\<close>

text \<open>
  The buffer \<^verbatim>\<open>b"l3:2:xd-7:"\<close>.  The list at 0 holds the string \<^verbatim>\<open>2:x\<close> (indices 1 to
  5) and then a dictionary at 6.  Its first key starts at 7 with the length \<open>-7\<close>: the
  colon is at 9, so the end is \<open>9 + 1 - 7 - 1 = 2\<close> and the cursor goes back to 3.  There
  the value \<^verbatim>\<open>2:xd\<close> is read as a string that ends at 6, and the cursor is 7 again.
\<close>

lemma stuck_first: "decode_string (PBytes ''l3:2:xd-7:'') 1 = Inr (''2:x'', 5)"
  by (simp add: decode_string_def find_def clamp_index_def slice_def py_int_def
        is_space_def is_digit_def digits_value_def digit_val_def)

lemma stuck_key: "decode_string (PBytes ''l3:2:xd-7:'') 7 = Inr ([], 2)"
  by (simp add: decode_string_def find_def clamp_index_def slice_def py_int_def
        is_space_def is_digit_def digits_value_def digit_val_def)

lemma stuck_value: "decode_string (PBytes ''l3:2:xd-7:'') 3 = Inr (''xd'', 6)"
  by (simp add: decode_string_def find_def clamp_index_def slice_def py_int_def
        is_space_def is_digit_def digits_value_def digit_val_def)

text \<open>The dictionary loop at cursor 7 comes back to cursor 7: no fuel is enough.\<close>

lemma stuck_dictionary_loop: "decode_dictionary_loop n ''l3:2:xd-7:'' 7 result = None"
proof (induction n arbitrary: result)
  case 0
  show ?case by simp
next
  case (Suc n)
  show ?case
    by (simp add: stuck_key stuck_value Suc.IH getitem_def is_digit_def)
qed

lemma stuck_dictionary: "decode_dictionary n (PBytes ''l3:2:xd-7:'') 6 = None"
  by (cases n) (simp_all add: stuck_dictionary_loop getitem_def)

lemma stuck_list_loop_at_6: "decode_list_loop n ''l3:2:xd-7:'' 6 contents = None"
  by (cases n) (simp_all add: stuck_dictionary getitem_def is_digit_def)

lemma stuck_list_loop_at_1: "decode_list_loop n ''l3:2:xd-7:'' 1 contents = None"
  by (cases n) (simp_all add: stuck_first stuck_list_loop_at_6 getitem_def is_digit_def)

lemma stuck_list: "decode_list n (PBytes ''l3:2:xd-7:'') 0 = None"
  by (cases n) (simp_all add: stuck_list_loop_at_1 getitem_def)

text \<open>
  C10.  \<^verbatim>\<open>decode(b"l3:2:xd-7:")\<close> neither returns nor raises: whatever the fuel, the
  model runs out of it.  So \<^verbatim>\<open>decode\<close>, \<^verbatim>\<open>decode_list\<close> and \<^verbatim>\<open>decode_dictionary\<close> do not
  terminate on every finite input.
\<close>

theorem decode_does_not_terminate:
  "decode n (PBytes ''l3:2:xd-7:'') 0 = None"
  by (simp add: decode_def stuck_list getitem_def is_digit_def)

end
